theory Spec2Isabelle
  imports Main "HOL-Library.Word" "HOL-Library.Sublist"
begin

unbundle bit_operations_syntax

section \<open>The host: strings, errors, base64\<close>

text \<open>
  A JavaScript string is a sequence of 16-bit code units. \<open>charCodeAt\<close> reads one unit,
  \<open>String.fromCharCode\<close> writes one, \<open>length\<close> counts them.
\<close>

type_synonym jschar = "16 word"
type_synonym jsstring = "jschar list"

definition js :: "string \<Rightarrow> jsstring" where
  "js s = map of_char s"

definition fromCharCode :: "nat \<Rightarrow> jschar" where
  "fromCharCode n = of_nat n"

text \<open>The exceptions the host raises in the code paths of the library.\<close>

datatype js_error = InvalidCharacterError | SyntaxError | TypeError | QuotaExceededError

subsection \<open>\<open>btoa\<close> and \<open>atob\<close>\<close>

text \<open>
  \<open>btoa\<close> raises InvalidCharacterError when a code unit exceeds 255 and otherwise
  encodes the units, read as bytes, in base64 with padding. \<open>atob\<close> is the forgiving
  base64 decoder of the HTML standard: ASCII whitespace is removed, one or two
  trailing \<open>=\<close> are dropped when the length is a multiple of four, a remaining length
  of 1 modulo 4 or any character outside the alphabet raises InvalidCharacterError, and
  the left-over bits of a final group of two or three characters are discarded.
\<close>

definition b64_char :: "nat \<Rightarrow> jschar" where
  "b64_char n =
     (if n < 26 then fromCharCode (65 + n)
      else if n < 52 then fromCharCode (97 + (n - 26))
      else if n < 62 then fromCharCode (48 + (n - 52))
      else if n = 62 then 43 else 47)"

definition b64_val :: "jschar \<Rightarrow> nat option" where
  "b64_val c =
     (let n = unat c in
      if 65 \<le> n \<and> n \<le> 90 then Some (n - 65)
      else if 97 \<le> n \<and> n \<le> 122 then Some (n - 97 + 26)
      else if 48 \<le> n \<and> n \<le> 57 then Some (n - 48 + 52)
      else if n = 43 then Some 62
      else if n = 47 then Some 63
      else None)"

fun b64_encode :: "nat list \<Rightarrow> jsstring" where
  "b64_encode [] = []"
| "b64_encode [a] = [b64_char (a div 4), b64_char ((a mod 4) * 16), 61, 61]"
| "b64_encode [a, b] =
     [b64_char (a div 4), b64_char ((a mod 4) * 16 + b div 16), b64_char ((b mod 16) * 4), 61]"
| "b64_encode (a # b # c # bs) =
     b64_char (a div 4) # b64_char ((a mod 4) * 16 + b div 16)
       # b64_char ((b mod 16) * 4 + c div 64) # b64_char (c mod 64) # b64_encode bs"

definition btoa :: "jsstring \<Rightarrow> js_error + jsstring" where
  "btoa s = (if \<exists>c \<in> set s. 255 < unat c then Inl InvalidCharacterError
             else Inr (b64_encode (map unat s)))"

definition ascii_whitespace :: "jschar \<Rightarrow> bool" where
  "ascii_whitespace c \<longleftrightarrow> c = 9 \<or> c = 10 \<or> c = 12 \<or> c = 13 \<or> c = 32"

definition strip_padding :: "jsstring \<Rightarrow> jsstring" where
  "strip_padding s =
     (if length s mod 4 = 0 \<and> s \<noteq> [] \<and> last s = 61
      then (if butlast s \<noteq> [] \<and> last (butlast s) = 61 then butlast (butlast s) else butlast s)
      else s)"

fun b64_decode :: "nat list \<Rightarrow> nat list" where
  "b64_decode (a # b # c # d # vs) =
     (a * 4 + b div 16) # ((b mod 16) * 16 + c div 4) # ((c mod 4) * 64 + d) # b64_decode vs"
| "b64_decode [a, b, c] = [a * 4 + b div 16, (b mod 16) * 16 + c div 4]"
| "b64_decode [a, b] = [a * 4 + b div 16]"
| "b64_decode vs = []"

definition atob :: "jsstring \<Rightarrow> js_error + jsstring" where
  "atob s =
     (let t = strip_padding (filter (\<lambda>c. \<not> ascii_whitespace c) s) in
      if length t mod 4 = 1 \<or> (\<exists>c \<in> set t. b64_val c = None) then Inl InvalidCharacterError
      else Inr (map fromCharCode (b64_decode (map (\<lambda>c. the (b64_val c)) t))))"

section \<open>JSON\<close>

text \<open>
  The values that \<open>JSON.parse\<close> produces and \<open>JSON.stringify\<close> writes back unchanged:
  null, booleans, numbers, strings, arrays and objects. An object is the list of its own
  properties in enumeration order. Numbers are integers: timestamps and durations in
  milliseconds are, and fractions, exponents, infinities and NaN are not modelled
  (the parser below rejects a number token with a fraction or an exponent). Values that
  JSON does not carry (undefined, Date, Map, functions) are not modelled either.
\<close>

datatype jsval =
    JNull
  | JBool bool
  | JNum int
  | JStr jsstring
  | JArr "jsval list"
  | JObj "(jsstring \<times> jsval) list"

subsection \<open>\<open>JSON.stringify\<close>\<close>

definition hex_digit :: "nat \<Rightarrow> jschar" where
  "hex_digit n = (if n < 10 then fromCharCode (48 + n) else fromCharCode (97 + (n - 10)))"

definition unicode_escape :: "jschar \<Rightarrow> jsstring" where
  "unicode_escape c =
     (let n = unat c in
      [92, 117, hex_digit (n div 4096), hex_digit (n div 256 mod 16),
       hex_digit (n div 16 mod 16), hex_digit (n mod 16)])"

definition high_surrogate :: "jschar \<Rightarrow> bool" where
  "high_surrogate c \<longleftrightarrow> 0xD800 \<le> unat c \<and> unat c \<le> 0xDBFF"

definition low_surrogate :: "jschar \<Rightarrow> bool" where
  "low_surrogate c \<longleftrightarrow> 0xDC00 \<le> unat c \<and> unat c \<le> 0xDFFF"

definition quote_unit :: "jschar \<Rightarrow> jsstring" where
  "quote_unit c =
     (if c = 8 then [92, 98]
      else if c = 9 then [92, 116]
      else if c = 10 then [92, 110]
      else if c = 12 then [92, 102]
      else if c = 13 then [92, 114]
      else if c = 34 then [92, 34]
      else if c = 92 then [92, 92]
      else if unat c < 32 then unicode_escape c
      else [c])"

text \<open>
  The body of a quoted string: a surrogate pair is copied, a lone surrogate is written
  as a \<open>\u\<close> escape, every other unit goes through the escape table.
\<close>

fun quote_units :: "jsstring \<Rightarrow> jsstring" where
  "quote_units [] = []"
| "quote_units [c] =
     (if high_surrogate c \<or> low_surrogate c then unicode_escape c else quote_unit c)"
| "quote_units (c # d # cs) =
     (if high_surrogate c then
        (if low_surrogate d then c # d # quote_units cs
         else unicode_escape c @ quote_units (d # cs))
      else if low_surrogate c then unicode_escape c @ quote_units (d # cs)
      else quote_unit c @ quote_units (d # cs))"

definition QuoteJSONString :: "jsstring \<Rightarrow> jsstring" where
  "QuoteJSONString s = 34 # quote_units s @ [34]"

fun decimal :: "nat \<Rightarrow> jsstring" where
  "decimal n =
     (if n < 10 then [fromCharCode (48 + n)]
      else decimal (n div 10) @ [fromCharCode (48 + n mod 10)])"

definition NumberToString :: "int \<Rightarrow> jsstring" where
  "NumberToString i = (if i < 0 then 45 # decimal (nat (- i)) else decimal (nat i))"

fun join :: "'a list \<Rightarrow> 'a list list \<Rightarrow> 'a list" where
  "join sep [] = []"
| "join sep [x] = x"
| "join sep (x # y # ys) = x @ sep @ join sep (y # ys)"

fun JSON_stringify :: "jsval \<Rightarrow> jsstring" where
  "JSON_stringify JNull = js ''null''"
| "JSON_stringify (JBool b) = (if b then js ''true'' else js ''false'')"
| "JSON_stringify (JNum i) = NumberToString i"
| "JSON_stringify (JStr s) = QuoteJSONString s"
| "JSON_stringify (JArr xs) = 91 # join [44] (map JSON_stringify xs) @ [93]"
| "JSON_stringify (JObj fs) =
     123 # join [44] (map (\<lambda>kv. QuoteJSONString (fst kv) @ 58 # JSON_stringify (snd kv)) fs) @ [125]"

subsection \<open>\<open>JSON.parse\<close>\<close>

definition json_whitespace :: "jschar \<Rightarrow> bool" where
  "json_whitespace c \<longleftrightarrow> c = 9 \<or> c = 10 \<or> c = 13 \<or> c = 32"

definition skip_ws :: "jsstring \<Rightarrow> jsstring" where
  "skip_ws s = dropWhile json_whitespace s"

definition hex_val :: "jschar \<Rightarrow> nat option" where
  "hex_val c =
     (let n = unat c in
      if 48 \<le> n \<and> n \<le> 57 then Some (n - 48)
      else if 97 \<le> n \<and> n \<le> 102 then Some (n - 97 + 10)
      else if 65 \<le> n \<and> n \<le> 70 then Some (n - 65 + 10)
      else None)"

definition hex4 :: "jschar \<Rightarrow> jschar \<Rightarrow> jschar \<Rightarrow> jschar \<Rightarrow> jschar option" where
  "hex4 a b c d =
     (case (hex_val a, hex_val b, hex_val c, hex_val d) of
        (Some p, Some q, Some r, Some s) \<Rightarrow> Some (fromCharCode (p * 4096 + q * 256 + r * 16 + s))
      | _ \<Rightarrow> None)"

definition unescape :: "jschar \<Rightarrow> jschar option" where
  "unescape e =
     (if e = 34 then Some 34
      else if e = 92 then Some 92
      else if e = 47 then Some 47
      else if e = 98 then Some 8
      else if e = 102 then Some 12
      else if e = 110 then Some 10
      else if e = 114 then Some 13
      else if e = 116 then Some 9
      else None)"

definition cons_result :: "jschar \<Rightarrow> (jsstring \<times> jsstring) option \<Rightarrow> (jsstring \<times> jsstring) option" where
  "cons_result c r = (case r of None \<Rightarrow> None | Some (s, rest) \<Rightarrow> Some (c # s, rest))"

text \<open>The characters of a string token after its opening quote, up to the closing one.\<close>

fun parse_chars :: "jsstring \<Rightarrow> (jsstring \<times> jsstring) option" where
  "parse_chars [] = None"
| "parse_chars [c] = (if c = 34 then Some ([], []) else None)"
| "parse_chars (c # e # es) =
     (if c = 34 then Some ([], e # es)
      else if c = 92 then
        (if e = 117 then
           (case es of
              h1 # h2 # h3 # h4 # r \<Rightarrow>
                (case hex4 h1 h2 h3 h4 of
                   None \<Rightarrow> None
                 | Some u \<Rightarrow> cons_result u (parse_chars r))
            | _ \<Rightarrow> None)
         else
           (case unescape e of
              None \<Rightarrow> None
            | Some u \<Rightarrow> cons_result u (parse_chars es)))
      else if unat c < 32 then None
      else cons_result c (parse_chars (e # es)))"

definition is_digit :: "jschar \<Rightarrow> bool" where
  "is_digit c \<longleftrightarrow> 48 \<le> unat c \<and> unat c \<le> 57"

definition digits_value :: "jsstring \<Rightarrow> nat" where
  "digits_value ds = foldl (\<lambda>acc c. acc * 10 + (unat c - 48)) 0 ds"

text \<open>
  A number token: an optional minus sign and an integer part without a leading zero.
  A fraction or exponent after it is outside the integer model and is rejected.
\<close>

definition parse_number :: "jsstring \<Rightarrow> (jsval \<times> jsstring) option" where
  "parse_number s =
     (let neg = (s \<noteq> [] \<and> hd s = 45);
          r = (if neg then tl s else s);
          ds = takeWhile is_digit r;
          rest = dropWhile is_digit r
      in if ds = [] \<or> (1 < length ds \<and> hd ds = 48) then None
         else if rest \<noteq> [] \<and> (hd rest = 46 \<or> hd rest = 101 \<or> hd rest = 69) then None
         else Some (JNum (if neg then - int (digits_value ds) else int (digits_value ds)), rest))"

text \<open>
  A property defined twice keeps its first position and takes the last value, as an
  assignment to an existing property does.
\<close>

fun put_property :: "jsstring \<Rightarrow> jsval \<Rightarrow> (jsstring \<times> jsval) list \<Rightarrow> (jsstring \<times> jsval) list" where
  "put_property k v [] = [(k, v)]"
| "put_property k v ((k', v') # fs) =
     (if k = k' then (k, v) # fs else (k', v') # put_property k v fs)"

text \<open>
  The recursive descent over values, array elements and object members. The first
  argument bounds the number of nested calls; \<open>JSON_parse\<close> starts it above twice the
  length of the text, and every call consumes a character.
\<close>

fun parse_value :: "nat \<Rightarrow> jsstring \<Rightarrow> (jsval \<times> jsstring) option"
  and parse_elements :: "nat \<Rightarrow> jsval list \<Rightarrow> jsstring \<Rightarrow> (jsval \<times> jsstring) option"
  and parse_members :: "nat \<Rightarrow> (jsstring \<times> jsval) list \<Rightarrow> jsstring \<Rightarrow> (jsval \<times> jsstring) option"
where
  "parse_value 0 s = None"
| "parse_value (Suc n) [] = None"
| "parse_value (Suc n) (c # cs) =
     (if c = 123 then
        (case skip_ws cs of
           [] \<Rightarrow> None
         | d # ds \<Rightarrow> if d = 125 then Some (JObj [], ds) else parse_members n [] (d # ds))
      else if c = 91 then
        (case skip_ws cs of
           [] \<Rightarrow> None
         | d # ds \<Rightarrow> if d = 93 then Some (JArr [], ds) else parse_elements n [] (d # ds))
      else if c = 34 then
        (case parse_chars cs of None \<Rightarrow> None | Some (str, r) \<Rightarrow> Some (JStr str, r))
      else if take 4 (c # cs) = js ''true'' then Some (JBool True, drop 3 cs)
      else if take 5 (c # cs) = js ''false'' then Some (JBool False, drop 4 cs)
      else if take 4 (c # cs) = js ''null'' then Some (JNull, drop 3 cs)
      else parse_number (c # cs))"
| "parse_elements 0 acc s = None"
| "parse_elements (Suc n) acc [] = None"
| "parse_elements (Suc n) acc (c # cs) =
     (case parse_value n (c # cs) of
        None \<Rightarrow> None
      | Some (v, r) \<Rightarrow>
          (case skip_ws r of
             [] \<Rightarrow> None
           | d # ds \<Rightarrow>
               if d = 44 then parse_elements n (acc @ [v]) (skip_ws ds)
               else if d = 93 then Some (JArr (acc @ [v]), ds)
               else None))"
| "parse_members 0 acc s = None"
| "parse_members (Suc n) acc [] = None"
| "parse_members (Suc n) acc (q # s1) =
     (if q \<noteq> 34 then None
      else
        (case parse_chars s1 of
           None \<Rightarrow> None
         | Some (k, r1) \<Rightarrow>
             (case skip_ws r1 of
                [] \<Rightarrow> None
              | colon # r2 \<Rightarrow>
                  if colon \<noteq> 58 then None
                  else
                    (case parse_value n (skip_ws r2) of
                       None \<Rightarrow> None
                     | Some (v, r3) \<Rightarrow>
                         (case skip_ws r3 of
                            [] \<Rightarrow> None
                          | d # ds \<Rightarrow>
                              if d = 44 then parse_members n (put_property k v acc) (skip_ws ds)
                              else if d = 125 then Some (JObj (put_property k v acc), ds)
                              else None)))))"

definition JSON_parse :: "jsstring \<Rightarrow> js_error + jsval" where
  "JSON_parse s =
     (case parse_value (2 * length s + 2) (skip_ws s) of
        None \<Rightarrow> Inl SyntaxError
      | Some (v, r) \<Rightarrow> if skip_ws r = [] then Inr v else Inl SyntaxError)"

subsection \<open>Comparing the clock with a parsed value\<close>

text \<open>
  \<open>Date.now() > x\<close> converts \<open>x\<close> to a primitive and then to a number. For a parsed
  array the primitive is its \<open>join(",")\<close>; for a parsed object it is
  \<open>"[object Object]"\<close>, unless the object has an own property \<open>toString\<close>: that
  property holds parsed data, is not callable, and the conversion raises TypeError.
  A comparison with NaN is false. Of the numeric strings only decimal integers,
  optionally signed and surrounded by white space, are numbers of the model.
\<close>

definition has_own :: "jsstring \<Rightarrow> (jsstring \<times> jsval) list \<Rightarrow> bool" where
  "has_own k fs \<longleftrightarrow> k \<in> set (map fst fs)"

fun ToString :: "jsval \<Rightarrow> js_error + jsstring" where
  "ToString JNull = Inr (js ''null'')"
| "ToString (JBool b) = Inr (if b then js ''true'' else js ''false'')"
| "ToString (JNum i) = Inr (NumberToString i)"
| "ToString (JStr s) = Inr s"
| "ToString (JArr xs) =
     (let parts = map (\<lambda>x. if x = JNull then Inr [] else ToString x) xs in
      if \<exists>p \<in> set parts. isl p then Inl TypeError
      else Inr (join [44] (map projr parts)))"
| "ToString (JObj fs) =
     (if has_own (js ''toString'') fs then Inl TypeError else Inr (js ''[object Object]''))"

definition str_whitespace :: "jschar \<Rightarrow> bool" where
  "str_whitespace c \<longleftrightarrow>
     c \<in> {9, 10, 11, 12, 13, 32, 160, 0x1680, 0x2028, 0x2029, 0x202F, 0x205F, 0x3000, 0xFEFF}
     \<or> (0x2000 \<le> unat c \<and> unat c \<le> 0x200A)"

definition StringToNumber :: "jsstring \<Rightarrow> int option" where
  "StringToNumber s =
     (let t = rev (dropWhile str_whitespace (rev (dropWhile str_whitespace s)));
          signed = (t \<noteq> [] \<and> (hd t = 43 \<or> hd t = 45));
          ds = (if signed then tl t else t)
      in if t = [] then Some 0
         else if ds = [] \<or> (\<exists>c \<in> set ds. \<not> is_digit c) then None
         else Some (if hd t = 45 then - int (digits_value ds) else int (digits_value ds)))"

text \<open>The operand \<open>None\<close> is \<open>undefined\<close>, the value of a property that is absent.\<close>

fun js_gt :: "int \<Rightarrow> jsval option \<Rightarrow> js_error + bool" where
  "js_gt t None = Inr False"
| "js_gt t (Some JNull) = Inr (0 < t)"
| "js_gt t (Some (JBool b)) = Inr ((if b then 1 else 0) < t)"
| "js_gt t (Some (JNum e)) = Inr (e < t)"
| "js_gt t (Some x) =
     (case ToString x of
        Inl err \<Rightarrow> Inl err
      | Inr s \<Rightarrow> (case StringToNumber s of None \<Rightarrow> Inr False | Some e \<Rightarrow> Inr (e < t)))"

section \<open>The world: storage, clock, delivered events\<close>

text \<open>
  The state outside the engine. \<open>storage\<close> is the Storage object the engine is bound to,
  as the list of its entries in the order \<open>key(i)\<close> enumerates them; \<open>quota\<close> bounds
  the code units it may hold (\<open>None\<close>: no bound). \<open>now\<close> is what the next call of
  \<open>Date.now()\<close> returns and \<open>ticks\<close> are the amounts by which the clock has advanced at
  each following call. \<open>delivered\<close> records every call of a listener, oldest first.
  Listeners are opaque: they are named by a number and do not touch the storage.
\<close>

datatype StorageEventType = EvSet | EvGet | EvRemove | EvClear | EvExpired

record StorageEventData =
  ev_type :: StorageEventType
  ev_key :: "jsstring option"
  ev_value :: "jsval option"
  ev_timestamp :: int

record world =
  storage :: "(jsstring \<times> jsstring) list"
  quota :: "nat option"
  now :: int
  ticks :: "nat list"
  delivered :: "(nat \<times> StorageEventData) list"

definition next_tick :: "world \<Rightarrow> int" where
  "next_tick w = (case ticks w of [] \<Rightarrow> 0 | d # ds \<Rightarrow> int d)"

definition Date_now :: "world \<Rightarrow> int \<times> world" where
  "Date_now w = (now w, w\<lparr>now := now w + next_tick w, ticks := tl (ticks w)\<rparr>)"

definition getItem :: "jsstring \<Rightarrow> world \<Rightarrow> jsstring option" where
  "getItem k w = map_of (storage w) k"

fun put_entry :: "jsstring \<Rightarrow> jsstring \<Rightarrow> (jsstring \<times> jsstring) list \<Rightarrow> (jsstring \<times> jsstring) list" where
  "put_entry k v [] = [(k, v)]"
| "put_entry k v ((k', v') # es) =
     (if k = k' then (k, v) # es else (k', v') # put_entry k v es)"

definition used_units :: "(jsstring \<times> jsstring) list \<Rightarrow> nat" where
  "used_units es = sum_list (map (\<lambda>kv. length (fst kv) + length (snd kv)) es)"

definition setItem :: "jsstring \<Rightarrow> jsstring \<Rightarrow> world \<Rightarrow> js_error + world" where
  "setItem k v w =
     (let es = put_entry k v (storage w) in
      case quota w of
        None \<Rightarrow> Inr (w\<lparr>storage := es\<rparr>)
      | Some q \<Rightarrow> if q < used_units es then Inl QuotaExceededError else Inr (w\<lparr>storage := es\<rparr>))"

definition removeItem :: "jsstring \<Rightarrow> world \<Rightarrow> world" where
  "removeItem k w = w\<lparr>storage := filter (\<lambda>kv. fst kv \<noteq> k) (storage w)\<rparr>"

section \<open>utils.ts\<close>

text \<open>
  The loop of \<open>encrypt\<close> and \<open>decrypt\<close>: unit \<open>i\<close> of the text is XORed with unit
  \<open>i % keyLength\<close> of the key. With an empty key the index is NaN, \<open>charCodeAt\<close> gives
  NaN, and \<open>^\<close> reads NaN as 0.
\<close>

definition keyCode :: "jsstring \<Rightarrow> nat \<Rightarrow> jschar" where
  "keyCode key i = (if key = [] then 0 else key ! (i mod length key))"

fun xor_loop :: "nat \<Rightarrow> jsstring \<Rightarrow> jsstring \<Rightarrow> jsstring" where
  "xor_loop i key [] = []"
| "xor_loop i key (c # cs) = (c XOR keyCode key i) # xor_loop (Suc i) key cs"

definition encrypt :: "jsstring \<Rightarrow> jsstring \<Rightarrow> js_error + jsstring" where
  "encrypt text key = btoa (xor_loop 0 key text)"

definition decrypt :: "jsstring \<Rightarrow> jsstring \<Rightarrow> jsstring" where
  "decrypt encryptedText key =
     (case atob encryptedText of
        Inl err \<Rightarrow> encryptedText
      | Inr text \<Rightarrow> xor_loop 0 key text)"

definition isExpired :: "jsval option \<Rightarrow> world \<Rightarrow> (js_error + bool) \<times> world" where
  "isExpired expires w =
     (if expires = Some JNull then (Inr False, w)
      else (let (t, w1) = Date_now w in (js_gt t expires, w1)))"

definition calculateExpires :: "int option \<Rightarrow> world \<Rightarrow> jsval \<times> world" where
  "calculateExpires expires w =
     (case expires of
        None \<Rightarrow> (JNull, w)
      | Some d \<Rightarrow> (let (t, w1) = Date_now w in (JNum (t + d), w1)))"

definition serialize :: "jsval \<Rightarrow> bool \<Rightarrow> jsstring \<Rightarrow> js_error + jsstring" where
  "serialize data shouldEncrypt encryptKey =
     (let jsonString = JSON_stringify data in
      if shouldEncrypt then encrypt jsonString encryptKey else Inr jsonString)"

definition deserialize :: "jsstring \<Rightarrow> bool \<Rightarrow> jsstring \<Rightarrow> jsval" where
  "deserialize data encrypted encryptKey =
     (case JSON_parse (if encrypted then decrypt data encryptKey else data) of
        Inl err \<Rightarrow> JNull
      | Inr v \<Rightarrow> v)"

text \<open>
  \<open>deepClone\<close> on the values of the model: primitives are returned, an array is mapped,
  an object is rebuilt by assigning each of its keys to a fresh object.
\<close>

fun deepClone :: "jsval \<Rightarrow> jsval" where
  "deepClone (JArr xs) = JArr (map deepClone xs)"
| "deepClone (JObj fs) =
     JObj (foldl (\<lambda>copy kv. put_property (fst kv) (snd kv) copy) []
            (map (\<lambda>kv. (fst kv, deepClone (snd kv))) fs))"
| "deepClone v = v"

section \<open>storage.ts: the class WebStorage\<close>

record StorageOptions =
  defaultExpires :: int
  prefix_opt :: jsstring
  encrypt_opt :: bool
  encryptKey :: jsstring

definition default_options :: StorageOptions where
  "default_options =
     \<lparr>defaultExpires = 0, prefix_opt = js ''vue-storage-'', encrypt_opt = False,
      encryptKey = js ''vue-web-storage''\<rparr>"

record SetOptions =
  set_expires :: "int option"
  set_encrypt :: "bool option"


text \<open>
  An engine: its resolved options and, for each event type, the listeners registered
  for it in the order of registration.
\<close>

record WebStorage =
  options :: StorageOptions
  listeners :: "StorageEventType \<Rightarrow> nat list"

definition getFullKey :: "WebStorage \<Rightarrow> jsstring \<Rightarrow> jsstring" where
  "getFullKey eng key = prefix_opt (options eng) @ key"

text \<open>
  \<open>emit\<close> reads the clock and calls the listeners only when one is registered for the
  type. A listener that raises is caught; the call is recorded all the same.
\<close>

definition emit :: "WebStorage \<Rightarrow> StorageEventType \<Rightarrow> jsstring option \<Rightarrow> jsval option \<Rightarrow> world \<Rightarrow> world" where
  "emit eng ty key val w =
     (if listeners eng ty = [] then w
      else
        (let (t, w1) = Date_now w;
             eventData = \<lparr>ev_type = ty, ev_key = key, ev_value = val, ev_timestamp = t\<rparr>
         in w1\<lparr>delivered := delivered w1 @ map (\<lambda>l. (l, eventData)) (listeners eng ty)\<rparr>))"

text \<open>
  \<open>item && typeof item === 'object' && (k in item)\<close> for \<open>k\<close> one of \<open>value\<close> and
  \<open>expires\<close>: neither is a property of an array or inherited from a prototype.
\<close>

definition has_field :: "jsstring \<Rightarrow> jsval \<Rightarrow> bool" where
  "has_field k item = (case item of JObj fs \<Rightarrow> has_own k fs | _ \<Rightarrow> False)"

definition field :: "jsstring \<Rightarrow> jsval \<Rightarrow> jsval option" where
  "field k item = (case item of JObj fs \<Rightarrow> map_of fs k | _ \<Rightarrow> None)"

definition or_null :: "jsval option \<Rightarrow> jsval" where
  "or_null defaultValue = (case defaultValue of None \<Rightarrow> JNull | Some d \<Rightarrow> d)"

definition make_item :: "jsval \<Rightarrow> jsval \<Rightarrow> int \<Rightarrow> jsval" where
  "make_item val expires created =
     JObj [(js ''value'', val), (js ''expires'', expires), (js ''created'', JNum created)]"

definition WebStorage_remove :: "WebStorage \<Rightarrow> jsstring \<Rightarrow> world \<Rightarrow> bool \<times> world" where
  "WebStorage_remove eng key w =
     (let fullKey = getFullKey eng key;
          w1 = removeItem fullKey w
      in (True, emit eng EvRemove (Some key) None w1))"

definition WebStorage_set :: "WebStorage \<Rightarrow> jsstring \<Rightarrow> jsval \<Rightarrow> SetOptions \<Rightarrow> world \<Rightarrow> bool \<times> world" where
  "WebStorage_set eng key val opts w =
     (let fullKey = getFullKey eng key;
          d = (case set_expires opts of None \<Rightarrow> defaultExpires (options eng) | Some e \<Rightarrow> e);
          (expires, w1) = calculateExpires (if d = 0 then None else Some d) w;
          cloned = deepClone val;
          (created, w2) = Date_now w1;
          item = make_item cloned expires created;
          shouldEncrypt = (case set_encrypt opts of None \<Rightarrow> encrypt_opt (options eng) | Some b \<Rightarrow> b)
      in case serialize item shouldEncrypt (encryptKey (options eng)) of
           Inl err \<Rightarrow> (False, w2)
         | Inr serializedData \<Rightarrow>
             (case setItem fullKey serializedData w2 of
                Inl err \<Rightarrow> (False, w2)
              | Inr w3 \<Rightarrow> (True, emit eng EvSet (Some key) (Some val) w3)))"

definition WebStorage_get :: "WebStorage \<Rightarrow> jsstring \<Rightarrow> jsval option \<Rightarrow> world \<Rightarrow> jsval \<times> world" where
  "WebStorage_get eng key defaultValue w =
     (let fullKey = getFullKey eng key in
      case getItem fullKey w of
        None \<Rightarrow> (or_null defaultValue, w)
      | Some data \<Rightarrow>
          if data = [] then (or_null defaultValue, w)
          else
            (let item = deserialize data (encrypt_opt (options eng)) (encryptKey (options eng)) in
             if \<not> has_field (js ''value'') item then (or_null defaultValue, w)
             else
               (case isExpired (field (js ''expires'') item) w of
                  (Inl err, w1) \<Rightarrow> (or_null defaultValue, w1)
                | (Inr True, w1) \<Rightarrow>
                    (let (ok, w2) = WebStorage_remove eng key w1;
                         w3 = emit eng EvExpired (Some key) None w2
                     in (or_null defaultValue, w3))
                | (Inr False, w1) \<Rightarrow>
                    (let v = the (field (js ''value'') item);
                         w2 = emit eng EvGet (Some key) (Some v) w1
                     in (deepClone v, w2)))))"

definition WebStorage_has :: "WebStorage \<Rightarrow> jsstring \<Rightarrow> world \<Rightarrow> bool \<times> world" where
  "WebStorage_has eng key w =
     (let fullKey = getFullKey eng key in
      case getItem fullKey w of
        None \<Rightarrow> (False, w)
      | Some data \<Rightarrow>
          if data = [] then (False, w)
          else
            (let item = deserialize data (encrypt_opt (options eng)) (encryptKey (options eng)) in
             if \<not> has_field (js ''expires'') item then (False, w)
             else
               (case isExpired (field (js ''expires'') item) w of
                  (Inl err, w1) \<Rightarrow> (False, w1)
                | (Inr True, w1) \<Rightarrow> (let (ok, w2) = WebStorage_remove eng key w1 in (False, w2))
                | (Inr False, w1) \<Rightarrow> (True, w1))))"

text \<open>The keys \<open>key(0)\<close>, \<open>key(1)\<close>, ... that a loop over the storage visits.\<close>

definition storage_keys :: "world \<Rightarrow> jsstring list" where
  "storage_keys w = map fst (storage w)"

definition own_key :: "WebStorage \<Rightarrow> jsstring \<Rightarrow> bool" where
  "own_key eng k \<longleftrightarrow> k \<noteq> [] \<and> prefix (prefix_opt (options eng)) k"


text \<open>
  The loop of \<open>clearExpired\<close>. It returns the keys to remove, or the exception that
  left the loop.
\<close>

fun expired_scan :: "WebStorage \<Rightarrow> jsstring list \<Rightarrow> world \<Rightarrow> (js_error + jsstring list) \<times> world" where
  "expired_scan eng [] w = (Inr [], w)"
| "expired_scan eng (fullKey # rest) w =
     (if \<not> own_key eng fullKey then expired_scan eng rest w
      else
        (case getItem fullKey w of
           None \<Rightarrow> expired_scan eng rest w
         | Some data \<Rightarrow>
             if data = [] then expired_scan eng rest w
             else
               (let item = deserialize data (encrypt_opt (options eng)) (encryptKey (options eng)) in
                if has_field (js ''expires'') item then
                  (case isExpired (field (js ''expires'') item) w of
                     (Inl err, w1) \<Rightarrow> (Inl err, w1)
                   | (Inr b, w1) \<Rightarrow>
                       (case expired_scan eng rest w1 of
                          (Inl err, w2) \<Rightarrow> (Inl err, w2)
                        | (Inr ks, w2) \<Rightarrow> (Inr (if b then fullKey # ks else ks), w2)))
                else expired_scan eng rest w)))"

definition WebStorage_clearExpired :: "WebStorage \<Rightarrow> world \<Rightarrow> nat \<times> world" where
  "WebStorage_clearExpired eng w =
     (case expired_scan eng (storage_keys w) w of
        (Inl err, w1) \<Rightarrow> (0, w1)
      | (Inr keysToRemove, w1) \<Rightarrow>
          (let w2 = fold removeItem keysToRemove w1;
               clearedCount = length keysToRemove
           in (clearedCount, if 0 < clearedCount then emit eng EvExpired None None w2 else w2)))"



definition WebStorage_on :: "WebStorage \<Rightarrow> StorageEventType \<Rightarrow> nat \<Rightarrow> WebStorage" where
  "WebStorage_on eng ty listener =
     eng\<lparr>listeners := (listeners eng)(ty := (if listener \<in> set (listeners eng ty) then listeners eng ty
                                              else listeners eng ty @ [listener]))\<rparr>"

definition WebStorage_off :: "WebStorage \<Rightarrow> StorageEventType \<Rightarrow> nat \<Rightarrow> WebStorage" where
  "WebStorage_off eng ty listener =
     eng\<lparr>listeners := (listeners eng)(ty := filter (\<lambda>l. l \<noteq> listener) (listeners eng ty))\<rparr>"

text \<open>The constructor: the options are stored and one sweep removes what has expired.\<close>

definition WebStorage_new :: "StorageOptions \<Rightarrow> world \<Rightarrow> WebStorage \<times> world" where
  "WebStorage_new opts w =
     (let eng = \<lparr>options = opts, listeners = (\<lambda>ty. [])\<rparr>
      in (eng, snd (WebStorage_clearExpired eng w)))"

section \<open>Well-formed values\<close>

text \<open>
  The keys of an object are pairwise different. Every object of the host is so; the
  predicate singles out the lists that stand for one.
\<close>

fun wf_value :: "jsval \<Rightarrow> bool" where
  "wf_value (JArr xs) = list_all wf_value xs"
| "wf_value (JObj fs) = (distinct (map fst fs) \<and> list_all (\<lambda>kv. wf_value (snd kv)) fs)"
| "wf_value v = True"

section \<open>Auxiliary notions of the proofs\<close>

text \<open>What may follow a value inside a text that \<open>JSON.stringify\<close> wrote.\<close>

definition ok_rest :: "jsstring \<Rightarrow> bool" where
  "ok_rest rest \<longleftrightarrow> rest = [] \<or> hd rest = 44 \<or> hd rest = 93 \<or> hd rest = 125"

definition member_text :: "jsstring \<times> jsval \<Rightarrow> jsstring" where
  "member_text kv = QuoteJSONString (fst kv) @ 58 # JSON_stringify (snd kv)"


section \<open>Engines and worlds of the examples\<close>

text \<open>An engine without listeners, and a world with a quiet clock and no quota.\<close>

definition engine_of :: "StorageOptions \<Rightarrow> WebStorage" where
  "engine_of opts = \<lparr>options = opts, listeners = (\<lambda>ty. [])\<rparr>"

definition world_of :: "(jsstring \<times> jsstring) list \<Rightarrow> int \<Rightarrow> world" where
  "world_of es t = \<lparr>storage = es, quota = None, now = t, ticks = [], delivered = []\<rparr>"


text \<open>
  What a call of \<open>set\<close> resolves from its options and the engine's: the duration
  \<open>options.expires ?? this.options.defaultExpires\<close>, the flag
  \<open>options.encrypt ?? this.options.encrypt\<close>, and the envelope it builds. A duration of
  zero is turned into \<open>undefined\<close> and the clock is then read once, for \<open>created\<close>;
  otherwise it is read for \<open>expires\<close> first and for \<open>created\<close> after.
\<close>

definition duration_of :: "WebStorage \<Rightarrow> SetOptions \<Rightarrow> int" where
  "duration_of eng opts =
     (case set_expires opts of None \<Rightarrow> defaultExpires (options eng) | Some e \<Rightarrow> e)"

definition encrypt_of :: "WebStorage \<Rightarrow> SetOptions \<Rightarrow> bool" where
  "encrypt_of eng opts =
     (case set_encrypt opts of None \<Rightarrow> encrypt_opt (options eng) | Some b \<Rightarrow> b)"

definition written_item :: "WebStorage \<Rightarrow> jsval \<Rightarrow> SetOptions \<Rightarrow> world \<Rightarrow> jsval" where
  "written_item eng val opts w =
     (if duration_of eng opts = 0 then make_item (deepClone val) JNull (now w)
      else make_item (deepClone val) (JNum (now w + duration_of eng opts)) (now w + next_tick w))"



definition decoded :: "WebStorage \<Rightarrow> jsstring \<Rightarrow> jsval" where
  "decoded eng data = deserialize data (encrypt_opt (options eng)) (encryptKey (options eng))"



text \<open>The entries of the storage whose key does not start with the engine's prefix.\<close>

definition outside :: "WebStorage \<Rightarrow> world \<Rightarrow> (jsstring \<times> jsstring) list" where
  "outside eng w = filter (\<lambda>kv. \<not> prefix (prefix_opt (options eng)) (fst kv)) (storage w)"



section \<open>Code units\<close>

lemma unat_lt_65536: "unat (c :: jschar) < 65536"
  using unsigned_less[of c, where 'a=nat] by simp

lemma unat_fromCharCode: "n < 65536 \<Longrightarrow> unat (fromCharCode n) = n"
  by (simp add: fromCharCode_def unat_of_nat)

lemma fromCharCode_unat: "fromCharCode (unat c) = c"
  by (simp add: fromCharCode_def)

lemma w_eq: "(c :: jschar) = d \<longleftrightarrow> unat c = unat d"
  by (simp add: word_unat_eq_iff)

section \<open>Objects and their properties\<close>




lemma put_property_fresh: "k \<notin> set (map fst fs) \<Longrightarrow> put_property k v fs = fs @ [(k, v)]"
  by (induction fs) auto



section \<open>What the parser returns is well formed\<close>





lemma deserialize_empty: "deserialize [] e k = JNull"
  by (simp add: deserialize_def decrypt_def atob_def strip_padding_def JSON_parse_def skip_ws_def)

section \<open>\<open>JSON.parse\<close> inverts \<open>JSON.stringify\<close>\<close>

subsection \<open>String tokens\<close>

lemma hex_val_hex_digit: "n < 16 \<Longrightarrow> hex_val (hex_digit n) = Some n"
  by (auto simp: hex_val_def hex_digit_def unat_fromCharCode Let_def)

lemma unat_hex_digit: "n < 16 \<Longrightarrow> unat (hex_digit n) = (if n < 10 then 48 + n else 87 + n)"
  by (auto simp: hex_digit_def unat_fromCharCode)


lemma split16: "(n::nat) div 4096 * 4096 + n div 256 mod 16 * 256 + n div 16 mod 16 * 16 + n mod 16 = n"
proof -
  have a: "n div 256 = n div 16 div 16" by (simp add: div_mult2_eq)
  have b: "n div 4096 = n div 16 div 16 div 16" by (simp add: div_mult2_eq)
  have "n = n div 16 * 16 + n mod 16" by simp
  moreover have "n div 16 = n div 16 div 16 * 16 + n div 16 mod 16" by simp
  moreover have "n div 16 div 16 = n div 16 div 16 div 16 * 16 + n div 16 div 16 mod 16" by simp
  ultimately show ?thesis unfolding a b by linarith
qed

lemma hex4_unicode:
  "hex4 (hex_digit (unat c div 4096)) (hex_digit (unat c div 256 mod 16))
        (hex_digit (unat c div 16 mod 16)) (hex_digit (unat c mod 16)) = Some c"
proof -
  have "unat c div 4096 < 16" using unat_lt_65536[of c] by simp
  then show ?thesis
    by (simp add: hex4_def hex_val_hex_digit split16 fromCharCode_unat)
qed

lemma parse_chars_unicode:
  "parse_chars (unicode_escape c @ t) = cons_result c (parse_chars t)"
  using hex4_unicode[of c]
  by (simp add: unicode_escape_def Let_def)

lemma parse_chars_quote_unit:
  "t \<noteq> [] \<Longrightarrow> \<not> high_surrogate c \<Longrightarrow> \<not> low_surrogate c \<Longrightarrow> parse_chars (quote_unit c @ t) = cons_result c (parse_chars t)"
  by (cases t) (auto simp: quote_unit_def parse_chars_unicode unescape_def)

lemma parse_chars_raw:
  "high_surrogate c \<or> low_surrogate c \<Longrightarrow> t \<noteq> [] \<Longrightarrow> parse_chars (c # t) = cons_result c (parse_chars t)"
  by (cases t) (auto simp: high_surrogate_def low_surrogate_def w_eq)

lemma parse_chars_quote_units:
  "parse_chars (quote_units s @ 34 # rest) = Some (s, rest)"
proof (induction s rule: quote_units.induct)
  case 1
  then show ?case by (cases rest) simp_all
next
  case (2 c)
  then show ?case
    by (cases rest) (simp_all add: parse_chars_unicode parse_chars_quote_unit cons_result_def)
next
  case (3 c d cs)
  show ?case
  proof (cases "high_surrogate c \<and> low_surrogate d")
    case True
    then show ?thesis
      using 3 by (simp add: parse_chars_raw cons_result_def del: parse_chars.simps)
  next
    case False
    then show ?thesis
      using 3 by (auto simp: parse_chars_unicode parse_chars_quote_unit cons_result_def simp del: parse_chars.simps)
  qed
qed

lemma parse_string: "parse_chars (tl (QuoteJSONString s) @ rest) = Some (s, rest)"
  by (simp add: QuoteJSONString_def parse_chars_quote_units)


subsection \<open>Number tokens\<close>

declare decimal.simps [simp del]

lemma is_digit_fromCharCode: "n < 10 \<Longrightarrow> is_digit (fromCharCode (48 + n))"
  by (simp add: is_digit_def unat_fromCharCode)

lemma decimal_digits: "list_all is_digit (decimal n)"
proof (induction n rule: decimal.induct)
  case (1 n)
  then show ?case
    by (subst decimal.simps) (auto simp: is_digit_fromCharCode)
qed

lemma decimal_nonempty: "decimal n \<noteq> []"
  by (subst decimal.simps) simp

lemma digits_value_snoc: "digits_value (ds @ [c]) = digits_value ds * 10 + (unat c - 48)"
  by (simp add: digits_value_def)

lemma digits_value_decimal: "digits_value (decimal n) = n"
proof (induction n rule: decimal.induct)
  case (1 n)
  show ?case
  proof (cases "n < 10")
    case True
    then show ?thesis
      by (subst decimal.simps) (simp add: digits_value_def unat_fromCharCode)
  next
    case False
    then show ?thesis
      using 1 by (subst decimal.simps) (simp add: digits_value_snoc unat_fromCharCode)
  qed
qed

lemma hd_decimal: "hd (decimal n) = 48 \<Longrightarrow> n < 10"
proof (induction n rule: decimal.induct)
  case (1 n)
  show ?case
  proof (rule ccontr)
    assume big: "\<not> n < 10"
    then have "decimal n = decimal (n div 10) @ [fromCharCode (48 + n mod 10)]"
      by (subst decimal.simps) simp
    then have "hd (decimal (n div 10)) = 48"
      using 1(2) decimal_nonempty[of "n div 10"] by simp
    then have "n div 10 < 10" using 1(1) big by simp
    then have "decimal (n div 10) = [fromCharCode (48 + n div 10)]"
      by (subst decimal.simps) simp
    then have "unat (fromCharCode (48 + n div 10)) = 48"
      using \<open>hd (decimal (n div 10)) = 48\<close> by simp
    then show False using big \<open>n div 10 < 10\<close> by (simp add: unat_fromCharCode)
  qed
qed

lemma length_decimal_small: "n < 10 \<Longrightarrow> length (decimal n) = 1"
  by (subst decimal.simps) simp

lemma ok_rest_not_digit: "ok_rest rest \<Longrightarrow> rest \<noteq> [] \<Longrightarrow> \<not> is_digit (hd rest)"
  by (auto simp: ok_rest_def is_digit_def)

lemma takeWhile_decimal: "ok_rest rest \<Longrightarrow> takeWhile is_digit (decimal n @ rest) = decimal n"
  using decimal_digits[of n] ok_rest_not_digit[of rest]
  by (cases rest) (auto simp: list_all_iff takeWhile_append2  )

lemma dropWhile_decimal: "ok_rest rest \<Longrightarrow> dropWhile is_digit (decimal n @ rest) = rest"
  using decimal_digits[of n] ok_rest_not_digit[of rest]
  by (cases rest) (auto simp: list_all_iff dropWhile_append2)

lemma hd_decimal_digit: "is_digit (hd (decimal n))"
  using decimal_digits[of n] decimal_nonempty[of n]
  by (cases "decimal n") (auto)

lemma parse_number_decimal:
  assumes "ok_rest rest"
  shows "parse_number (NumberToString i @ rest) = Some (JNum i, rest)"
proof -
  have lead: "\<not> (1 < length (decimal n) \<and> hd (decimal n) = 48)" for n
    using hd_decimal[of n] length_decimal_small[of n] by auto
  have tail: "\<not> (rest \<noteq> [] \<and> (hd rest = 46 \<or> hd rest = 101 \<or> hd rest = 69))"
    using assms by (auto simp: ok_rest_def)
  show ?thesis
  proof (cases "i < 0")
    case True
    then show ?thesis
      using lead[of "nat (- i)"] tail assms
      by (simp add: parse_number_def NumberToString_def takeWhile_decimal dropWhile_decimal
          decimal_nonempty digits_value_decimal Let_def)
  next
    case False
    have "hd (decimal (nat i) @ rest) \<noteq> 45"
      using hd_decimal_digit[of "nat i"] decimal_nonempty[of "nat i"]
      by (auto simp: is_digit_def)
    then show ?thesis
      using False lead[of "nat i"] tail assms
      by (simp add: parse_number_def NumberToString_def takeWhile_decimal dropWhile_decimal
          decimal_nonempty digits_value_decimal Let_def)
  qed
qed


lemma join_Cons: "xs \<noteq> [] \<Longrightarrow> join sep (x # xs) = x @ sep @ join sep xs"
  by (cases xs) simp_all

lemma skip_ws_nonws: "s \<noteq> [] \<Longrightarrow> \<not> json_whitespace (hd s) \<Longrightarrow> skip_ws s = s"
  by (cases s) (simp_all add: skip_ws_def)

lemma hd_decimal_unat: "48 \<le> unat (hd (decimal n)) \<and> unat (hd (decimal n)) \<le> 57"
  using hd_decimal_digit[of n] by (simp add: is_digit_def)

lemma stringify_first:
  "\<exists>c cs. JSON_stringify v = c # cs \<and> \<not> json_whitespace c"
proof (cases v)
  case (JNum i)
  obtain c cs where d: "decimal (nat \<bar>i\<bar>) = c # cs"
    using decimal_nonempty[of "nat \<bar>i\<bar>"] by (cases "decimal (nat \<bar>i\<bar>)") auto
  have "48 \<le> unat c" using hd_decimal_unat[of "nat \<bar>i\<bar>"] d by simp
  then have "\<not> json_whitespace c" by (auto simp: json_whitespace_def)
  then show ?thesis
    using JNum d by (cases "i < 0") (auto simp: NumberToString_def json_whitespace_def abs_if)
qed (auto simp: js_def json_whitespace_def QuoteJSONString_def)

lemma skip_ws_stringify [simp]: "skip_ws (JSON_stringify v @ t) = JSON_stringify v @ t"
  using stringify_first[of v] by (auto simp: skip_ws_def)

lemma stringify_nonempty [simp]: "JSON_stringify v \<noteq> []"
  using stringify_first[of v] by auto

lemma parse_value_number:
  "parse_value (Suc n) (NumberToString i @ rest) = parse_number (NumberToString i @ rest)"
proof -
  obtain c cs where d: "NumberToString i = c # cs" and c: "c = 45 \<or> (48 \<le> unat c \<and> unat c \<le> 57)"
  proof (cases "i < 0")
    case True
    then show ?thesis using that by (simp add: NumberToString_def)
  next
    case False
    obtain c cs where "decimal (nat i) = c # cs"
      using decimal_nonempty[of "nat i"] by (cases "decimal (nat i)") auto
    then show ?thesis using that False hd_decimal_unat[of "nat i"] by (simp add: NumberToString_def)
  qed
  from c have "c \<noteq> 123" "c \<noteq> 91" "c \<noteq> 34" "c \<noteq> 116" "c \<noteq> 102" "c \<noteq> 110"
    by (auto simp: w_eq)
  then show ?thesis using d by (simp add: js_def)
qed

lemma parse_elements_step:
  "s \<noteq> [] \<Longrightarrow> parse_elements (Suc n) acc s =
     (case parse_value n s of
        None \<Rightarrow> None
      | Some (v, r) \<Rightarrow>
          (case skip_ws r of
             [] \<Rightarrow> None
           | d # ds \<Rightarrow>
               if d = 44 then parse_elements n (acc @ [v]) (skip_ws ds)
               else if d = 93 then Some (JArr (acc @ [v]), ds)
               else None))"
  by (cases s) simp_all

lemma skip_ws_sep [simp]: "skip_ws (44 # t) = 44 # t" "skip_ws (93 # t) = 93 # t" "skip_ws (125 # t) = 125 # t" "skip_ws (58 # t) = 58 # t" "skip_ws (34 # t) = 34 # t"
  by (simp_all add: skip_ws_def json_whitespace_def)

lemma ok_rest_sep [simp]: "ok_rest (44 # t)" "ok_rest (93 # t)" "ok_rest (125 # t)" "ok_rest []"
  by (simp_all add: ok_rest_def)

lemma length_join_Cons: "xs \<noteq> [] \<Longrightarrow> length (join sep (x # xs)) = length x + length sep + length (join sep xs)"
  by (simp add: join_Cons)

lemma parse_elements_join:
  assumes "\<And>x n rest. x \<in> set xs \<Longrightarrow> ok_rest rest \<Longrightarrow> 2 * length (JSON_stringify x) \<le> n
             \<Longrightarrow> parse_value n (JSON_stringify x @ rest) = Some (x, rest)"
    and "xs \<noteq> []"
    and "2 * length (join [44] (map JSON_stringify xs)) + 1 \<le> n"
  shows "parse_elements n acc (join [44] (map JSON_stringify xs) @ 93 # rest) = Some (JArr (acc @ xs), rest)"
  using assms
proof (induction xs arbitrary: n acc)
  case Nil
  then show ?case by simp
next
  case (Cons x xs)
  obtain m where n: "n = Suc m" using Cons.prems(3) by (cases n) auto
  show ?case
  proof (cases "xs = []")
    case True
    have "parse_value m (JSON_stringify x @ 93 # rest) = Some (x, 93 # rest)"
      using Cons.prems(1)[of x "93 # rest" m] Cons.prems(3) True n by simp
    then show ?thesis using True n by (simp add: parse_elements_step)
  next
    case False
    have len: "length (join [44] (map JSON_stringify (x # xs))) =
        length (JSON_stringify x) + 1 + length (join [44] (map JSON_stringify xs))"
      using False by (simp add: length_join_Cons)
    obtain y ys where xs: "xs = y # ys" using False by (cases xs) auto
    have first: "skip_ws (join [44] (map JSON_stringify xs) @ 93 # rest) = join [44] (map JSON_stringify xs) @ 93 # rest"
      using xs by (cases ys) simp_all
    have pv: "parse_value m (JSON_stringify x @ 44 # join [44] (map JSON_stringify xs) @ 93 # rest)
        = Some (x, 44 # join [44] (map JSON_stringify xs) @ 93 # rest)"
      using Cons.prems(1)[of x _ m] Cons.prems(3) len n by simp
    have "parse_elements m (acc @ [x]) (join [44] (map JSON_stringify xs) @ 93 # rest) = Some (JArr ((acc @ [x]) @ xs), rest)"
      using Cons.IH[of m "acc @ [x]"] Cons.prems(1) Cons.prems(3) False len n by simp
    then show ?thesis
      using False n pv first by (simp add: join_Cons parse_elements_step)
  qed
qed



subsection \<open>Values\<close>

lemma member_text_first: "\<exists>t. member_text kv = 34 # t"
  by (simp add: member_text_def QuoteJSONString_def)

lemma parse_members_step:
  "parse_members (Suc n) acc (34 # quote_units k @ 34 # 58 # t) =
     (case parse_value n (skip_ws t) of
        None \<Rightarrow> None
      | Some (v, r3) \<Rightarrow>
          (case skip_ws r3 of
             [] \<Rightarrow> None
           | d # ds \<Rightarrow>
               if d = 44 then parse_members n (put_property k v acc) (skip_ws ds)
               else if d = 125 then Some (JObj (put_property k v acc), ds)
               else None))"
  by (simp add: parse_chars_quote_units)

lemma parse_members_join:
  assumes "\<And>kv n rest. kv \<in> set fs \<Longrightarrow> ok_rest rest \<Longrightarrow> 2 * length (JSON_stringify (snd kv)) \<le> n
             \<Longrightarrow> parse_value n (JSON_stringify (snd kv) @ rest) = Some (snd kv, rest)"
    and "fs \<noteq> []"
    and "distinct (map fst (acc @ fs))"
    and "2 * length (join [44] (map member_text fs)) + 1 \<le> n"
  shows "parse_members n acc (join [44] (map member_text fs) @ 125 # rest) = Some (JObj (acc @ fs), rest)"
  using assms
proof (induction fs arbitrary: n acc)
  case Nil
  then show ?case by simp
next
  case (Cons f fs)
  obtain m where n: "n = Suc m" using Cons.prems(4) by (cases n) auto
  obtain k v where f: "f = (k, v)" by (cases f)
  have put: "put_property k v acc = acc @ [(k, v)]"
    using Cons.prems(3) f by (simp add: put_property_fresh)
  have mt: "member_text f = 34 # quote_units k @ 34 # 58 # JSON_stringify v"
    by (simp add: member_text_def QuoteJSONString_def f)
  have lm: "length (JSON_stringify v) \<le> length (member_text f)"
    by (simp add: mt)
  show ?case
  proof (cases "fs = []")
    case True
    have "parse_value m (JSON_stringify v @ 125 # rest) = Some (v, 125 # rest)"
      using Cons.prems(1)[of f "125 # rest" m] Cons.prems(4) True n f lm by simp
    then show ?thesis using True n put mt f by (simp add: parse_members_step del: parse_members.simps)
  next
    case False
    have len: "length (join [44] (map member_text (f # fs))) =
        length (member_text f) + 1 + length (join [44] (map member_text fs))"
      using False by (simp add: length_join_Cons)
    obtain g gs where fs: "fs = g # gs" using False by (cases fs) auto
    obtain t where g: "member_text g = 34 # t" using member_text_first by blast
    have first: "skip_ws (join [44] (map member_text fs) @ 125 # rest) = join [44] (map member_text fs) @ 125 # rest"
      using fs g by (cases gs) simp_all
    have pv: "parse_value m (JSON_stringify v @ 44 # join [44] (map member_text fs) @ 125 # rest)
        = Some (v, 44 # join [44] (map member_text fs) @ 125 # rest)"
      using Cons.prems(1)[of f _ m] Cons.prems(4) len n f lm by simp
    have "parse_members m (acc @ [f]) (join [44] (map member_text fs) @ 125 # rest) = Some (JObj ((acc @ [f]) @ fs), rest)"
      using Cons.IH[of "acc @ [f]" m] Cons.prems(1) Cons.prems(3) Cons.prems(4) False len n by simp
    then show ?thesis
      using False n pv first put mt f by (simp add: join_Cons parse_members_step del: parse_members.simps)
  qed
qed

lemma stringify_obj: "JSON_stringify (JObj fs) = 123 # join [44] (map member_text fs) @ [125]"
  by (simp add: member_text_def [abs_def])

lemma stringify_first_not_close:
  "JSON_stringify v = c # cs \<Longrightarrow> c \<noteq> 93 \<and> c \<noteq> 125"
proof (cases v)
  case (JNum i)
  assume a: "JSON_stringify v = c # cs"
  show ?thesis
  proof (cases "i < 0")
    case True
    then show ?thesis using a JNum by (auto simp: NumberToString_def)
  next
    case False
    then have "c = hd (decimal (nat i))" using a JNum decimal_nonempty[of "nat i"]
      by (cases "decimal (nat i)") (auto simp: NumberToString_def)
    then show ?thesis using hd_decimal_unat[of "nat i"] by (auto simp: w_eq)
  qed
qed (auto simp: js_def QuoteJSONString_def split: if_splits)


lemma parse_value_stringify:
  "wf_value v \<Longrightarrow> ok_rest rest \<Longrightarrow> 2 * length (JSON_stringify v) \<le> n
   \<Longrightarrow> parse_value n (JSON_stringify v @ rest) = Some (v, rest)"
proof (induction v arbitrary: n rest)
  case JNull
  then obtain m where "n = Suc m" by (cases n) (auto simp: js_def)
  then show ?case by (simp add: js_def)
next
  case (JBool b)
  then obtain m where "n = Suc m" by (cases n; cases b) (auto simp: js_def)
  then show ?case by (simp add: js_def)
next
  case (JNum i)
  then obtain m where "n = Suc m" using stringify_nonempty[of "JNum i"] by (cases n) auto
  then show ?case using JNum by (simp add: parse_value_number parse_number_decimal del: parse_value.simps)
next
  case (JStr s)
  then obtain m where "n = Suc m" by (cases n) (auto simp: QuoteJSONString_def)
  then show ?case by (simp add: QuoteJSONString_def parse_chars_quote_units)
next
  case (JArr xs)
  then obtain m where n: "n = Suc m" by (cases n) auto
  show ?case
  proof (cases "xs = []")
    case True
    then show ?thesis using n by simp
  next
    case False
    obtain y ys where xs: "xs = y # ys" using False by (cases xs) auto
    obtain c cs where y: "JSON_stringify y = c # cs" and ws: "\<not> json_whitespace c"
      using stringify_first[of y] by blast
    have c: "c \<noteq> 93" using stringify_first_not_close[OF y] by simp
    obtain t where jc: "join [44] (map JSON_stringify xs) @ 93 # rest = c # t"
      using xs y by (cases ys) simp_all
    have "parse_elements m [] (join [44] (map JSON_stringify xs) @ 93 # rest) = Some (JArr ([] @ xs), rest)"
      using JArr n False
      by (intro parse_elements_join) (auto simp: list_all_iff)
    then show ?thesis using n jc c ws by (simp add: skip_ws_def)
  qed
next
  case (JObj fs)
  then obtain m where n: "n = Suc m" by (cases n) auto
  show ?case
  proof (cases "fs = []")
    case True
    then show ?thesis using n by simp
  next
    case False
    obtain g gs where fs: "fs = g # gs" using False by (cases fs) auto
    obtain t where g: "member_text g = 34 # t" using member_text_first by blast
    obtain cs where jc: "join [44] (map member_text fs) @ 125 # rest = 34 # cs"
      using fs g by (cases gs) simp_all
    have IH: "parse_value k (JSON_stringify (snd kv) @ r) = Some (snd kv, r)"
      if "kv \<in> set fs" "ok_rest r" "2 * length (JSON_stringify (snd kv)) \<le> k" for kv k r
    proof -
      have "snd kv \<in> Basic_BNFs.snds kv" by (cases kv) simp
      moreover have "wf_value (snd kv)" using JObj.prems(1) that(1) by (auto simp: list_all_iff)
      ultimately show ?thesis using JObj.IH[of kv "snd kv" r k] that by simp
    qed
    have "parse_members m [] (join [44] (map member_text fs) @ 125 # rest) = Some (JObj ([] @ fs), rest)"
    proof (rule parse_members_join)
      show "fs \<noteq> []" by (rule False)
      show "distinct (map fst ([] @ fs))" using JObj.prems(1) by simp
      show "2 * length (join [44] (map member_text fs)) + 1 \<le> m"
        using JObj.prems(3) n by (simp add: stringify_obj del: JSON_stringify.simps)
    qed (rule IH)
    then show ?thesis using n jc
      by (simp add: skip_ws_def json_whitespace_def stringify_obj del: JSON_stringify.simps)
  qed
qed

text \<open>Every well-formed value is read back from its text.\<close>

lemma JSON_roundtrip: "wf_value v \<Longrightarrow> JSON_parse (JSON_stringify v) = Inr v"
  using parse_value_stringify[of v "[]" "2 * length (JSON_stringify v) + 2"] skip_ws_stringify[of v "[]"]
  by (simp add: JSON_parse_def skip_ws_def del: skip_ws_stringify)



declare JSON_stringify.simps [simp del]

lemma deserialize_plain: "wf_value v \<Longrightarrow> deserialize (JSON_stringify v) False k = v"
  by (simp add: deserialize_def JSON_roundtrip)

section \<open>\<open>atob\<close> inverts \<open>btoa\<close>, \<open>decrypt\<close> inverts \<open>encrypt\<close>\<close>

lemma unat_b64_char:
  "n < 64 \<Longrightarrow> unat (b64_char n) =
     (if n < 26 then 65 + n else if n < 52 then 71 + n else if n < 62 then n - 4 else if n = 62 then 43 else 47)"
  by (auto simp: b64_char_def unat_fromCharCode)



















subsection \<open>Reading with another key\<close>




lemma serialize_returns_iff:
  "(\<exists>data. serialize x True key = Inr data)
     \<longleftrightarrow> list_all (\<lambda>c. unat c \<le> 255) (xor_loop 0 key (JSON_stringify x))"
  by (auto simp: serialize_def encrypt_def btoa_def Let_def list_all_iff not_le not_less)


section \<open>The text of \<open>btoa\<close> is never the text of an object\<close>

text \<open>
  The first character of a Base64 text is a letter, a digit, \<open>+\<close> or \<open>/\<close>. A JSON text that
  starts so is, when it parses at all, a number, a boolean or \<open>null\<close>.
\<close>

lemma parse_value_scalar:
  assumes "c \<noteq> 123" "c \<noteq> 91" "c \<noteq> 34" and "parse_value n (c # cs) = Some (v, r)"
  shows "\<not> has_field k v"
proof (cases n)
  case 0
  then show ?thesis using assms by simp
next
  case (Suc m)
  then show ?thesis
    using assms by (auto simp: has_field_def parse_number_def Let_def split: if_splits)
qed

lemma b64_encode_first:
  "\<exists>cs. b64_encode (a # bs) = b64_char (a div 4) # cs"
  by (cases "a # bs" rule: b64_encode.cases) auto

lemma b64_char_plain:
  assumes "n < 64"
  shows "b64_char n \<noteq> 123" "b64_char n \<noteq> 91" "b64_char n \<noteq> 34" "\<not> json_whitespace (b64_char n)"
  using assms by (auto simp: w_eq unat_b64_char json_whitespace_def)

lemma btoa_not_object:
  assumes "btoa s = Inr t"
  shows "\<not> has_field k (deserialize t False key)"
proof (cases "s = []")
  case True
  then have "t = []" using assms by (simp add: btoa_def)
  then show ?thesis by (simp add: deserialize_empty has_field_def)
next
  case False
  have small: "list_all (\<lambda>b. b < 256) (map unat s)"
    using assms by (auto simp: btoa_def list_all_iff not_less split: if_splits)
  have t: "t = b64_encode (map unat s)"
    using assms by (auto simp: btoa_def split: if_splits)
  obtain a bs where abs: "map unat s = a # bs" using False by (cases s) auto
  then have "a < 256" using small by simp
  then have n: "a div 4 < 64" by simp
  obtain cs where e: "t = b64_char (a div 4) # cs"
    using b64_encode_first[of a bs] t abs by auto
  have sk: "skip_ws t = t" using e b64_char_plain(4)[OF n] by (simp add: skip_ws_def)
  show ?thesis
  proof (cases "JSON_parse t")
    case (Inl err)
    then show ?thesis by (simp add: deserialize_def has_field_def)
  next
    case (Inr v)
    then obtain r where "parse_value (2 * length t + 2) (b64_char (a div 4) # cs) = Some (v, r)"
      using sk e by (auto simp: JSON_parse_def split: option.splits if_splits)
    then have "\<not> has_field k v"
      using parse_value_scalar[OF b64_char_plain(1,2,3)[OF n]] by blast
    then show ?thesis using Inr by (simp add: deserialize_def)
  qed
qed

section \<open>The storage and the clock under the operations\<close>

lemma map_of_put_entry: "map_of (put_entry k v es) k' = (if k' = k then Some v else map_of es k')"
  by (induction es) auto

lemma map_of_remove: "map_of (filter (\<lambda>kv. fst kv \<noteq> k) es) k' = (if k' = k then None else map_of es k')"
  by (induction es) auto

lemma getItem_setItem: "setItem k v w = Inr w' \<Longrightarrow> getItem k' w' = (if k' = k then Some v else getItem k' w)"
  by (auto simp: setItem_def getItem_def map_of_put_entry Let_def split: option.splits if_splits)

lemma getItem_removeItem: "getItem k' (removeItem k w) = (if k' = k then None else getItem k' w)"
  by (simp add: getItem_def removeItem_def map_of_remove)

lemma storage_emit [simp]: "storage (emit eng ty k v w) = storage w"
  by (simp add: emit_def Date_now_def Let_def)

lemma getItem_emit [simp]: "getItem k' (emit eng ty k v w) = getItem k' w"
  by (simp add: getItem_def)

lemma storage_Date_now [simp]: "storage (snd (Date_now w)) = storage w"
  by (simp add: Date_now_def)

lemma getItem_Date_now [simp]: "getItem k (snd (Date_now w)) = getItem k w"
  by (simp add: getItem_def)

lemma fst_Date_now [simp]: "fst (Date_now w) = now w"
  by (simp add: Date_now_def)

lemma now_Date_now [simp]: "now (snd (Date_now w)) = now w + next_tick w"
  by (simp add: Date_now_def)



text \<open>What a successful \<open>set\<close> has written.\<close>

lemma set_success:
  assumes "WebStorage_set eng key val opts w = (True, w1)"
  shows "\<exists>data. serialize (written_item eng val opts w) (encrypt_of eng opts) (encryptKey (options eng)) = Inr data
           \<and> getItem (getFullKey eng key) w1 = Some data"
  using assms
  by (auto simp: WebStorage_set_def written_item_def duration_of_def encrypt_of_def calculateExpires_def
      Let_def getItem_setItem Date_now_def split: prod.splits sum.splits option.splits if_splits)





text \<open>What \<open>get\<close> does with an entry that decodes to an envelope.\<close>

lemma field_make_item [simp]:
  "field (js ''value'') (make_item v e c) = Some v"
  "field (js ''expires'') (make_item v e c) = Some e"
  "has_field (js ''value'') (make_item v e c)"
  "has_field (js ''expires'') (make_item v e c)"
  by (simp_all add: field_def has_field_def has_own_def make_item_def js_def)






section \<open>The loop of \<open>getStats\<close>\<close>



lemma getItem_clock [simp]: "getItem k (w\<lparr>now := t, ticks := ts\<rparr>) = getItem k w"
  by (simp add: getItem_def)


lemma getItem_cong: "storage w1 = storage w \<Longrightarrow> getItem k w1 = getItem k w"
  by (simp add: getItem_def)










lemma field_JNull [simp]: "field k JNull = None" "\<not> has_field k JNull"
  by (simp_all add: field_def has_field_def)


lemma has_field_nonempty:
  "has_field k (decoded eng data) \<Longrightarrow> data \<noteq> []"
  using deserialize_empty by (auto simp: decoded_def)

lemma isExpired_True:
  "fst (isExpired x w) = Inr True \<Longrightarrow> isExpired x w = (Inr True, snd (Date_now w))"
  by (auto simp: isExpired_def Date_now_def split: if_splits)

section \<open>The loop of \<open>clearExpired\<close>\<close>





section \<open>Entries outside the prefix\<close>

lemma filter_put_entry:
  "prefix p k \<Longrightarrow>
   filter (\<lambda>kv. \<not> prefix p (fst kv)) (put_entry k v es) = filter (\<lambda>kv. \<not> prefix p (fst kv)) es"
  by (induction es) auto


lemma full_key_prefix [simp]: "prefix (prefix_opt (options eng)) (getFullKey eng key)"
  by (simp add: getFullKey_def)

lemma outside_emit [simp]: "outside eng (emit e ty k v w) = outside eng w"
  by (simp add: outside_def)

lemma outside_Date_now [simp]: "outside eng (snd (Date_now w)) = outside eng w"
  by (simp add: outside_def)



lemma outside_setItem:
  "prefix (prefix_opt (options eng)) k \<Longrightarrow> setItem k v w = Inr w1 \<Longrightarrow> outside eng w1 = outside eng w"
  by (auto simp: outside_def setItem_def Let_def filter_put_entry split: option.splits if_splits)


















section \<open>What an engine can tell apart\<close>










text \<open>The definitions that an example unfolds.\<close>

lemmas ex_defs = WebStorage_set_def engine_of_def default_options_def world_of_def calculateExpires_def
      Date_now_def next_tick_def serialize_def setItem_def emit_def getFullKey_def written_item_def duration_of_def
      encrypt_of_def getItem_def make_item_def

text \<open>The definitions that the text of an example unfolds, and three texts.\<close>

lemmas text_defs = JSON_stringify.simps QuoteJSONString_def js_def quote_unit_def
  high_surrogate_def low_surrogate_def NumberToString_def decimal.simps keyCode_def
  fromCharCode_def btoa_def encrypt_def




section \<open>The claims\<close>


subsection \<open>C1: a value written is the value read\<close>




subsection \<open>C2: \<open>has\<close> on an expired entry\<close>

text \<open>
  C2, as the code has it. When the entry of a key is present, decodes to an object
  with an \<open>expires\<close> property and is expired, \<open>has\<close> returns false and the entry is
  gone afterwards. No \<open>get\<close> and no \<open>expired\<close> event is emitted; the one event is the
  \<open>remove\<close> event of the key, delivered to each listener registered for \<open>remove\<close>.
\<close>

theorem has_expired:
  assumes "getItem (getFullKey eng key) w = Some data"
    and "has_field (js ''expires'') (decoded eng data)"
    and "fst (isExpired (field (js ''expires'') (decoded eng data)) w) = Inr True"
  shows "fst (WebStorage_has eng key w) = False
       \<and> getItem (getFullKey eng key) (snd (WebStorage_has eng key w)) = None
       \<and> delivered (snd (WebStorage_has eng key w)) =
           delivered w @ map (\<lambda>l. (l, \<lparr>ev_type = EvRemove, ev_key = Some key, ev_value = None,
                                       ev_timestamp = now w + next_tick w\<rparr>)) (listeners eng EvRemove)"
proof -
  have ne: "data \<noteq> []" using assms(2) by (rule has_field_nonempty)
  have ie: "isExpired (field (js ''expires'') (decoded eng data)) w = (Inr True, snd (Date_now w))"
    using assms(3) by (rule isExpired_True)
  have h: "WebStorage_has eng key w = (False, snd (WebStorage_remove eng key (snd (Date_now w))))"
    using assms(1,2) ne ie by (simp add: WebStorage_has_def decoded_def Let_def split: prod.splits)
  have "getItem (getFullKey eng key) (snd (WebStorage_has eng key w)) = None"
    unfolding h by (simp add: WebStorage_remove_def Let_def getItem_removeItem)
  moreover have "delivered (snd (WebStorage_has eng key w)) =
           delivered w @ map (\<lambda>l. (l, \<lparr>ev_type = EvRemove, ev_key = Some key, ev_value = None,
                                       ev_timestamp = now w + next_tick w\<rparr>)) (listeners eng EvRemove)"
    unfolding h by (simp add: WebStorage_remove_def Let_def emit_def Date_now_def removeItem_def)
  ultimately show ?thesis using h by simp
qed

theorem has_expired_witness:
  "fst (WebStorage_has (engine_of default_options) (js ''k'')
         (world_of [(js ''vue-storage-k'', JSON_stringify (make_item (JNum 1) (JNum 1500) 1000))] 2000)) = False
   \<and> getItem (getFullKey (engine_of default_options) (js ''k''))
        (snd (WebStorage_has (engine_of default_options) (js ''k'')
         (world_of [(js ''vue-storage-k'', JSON_stringify (make_item (JNum 1) (JNum 1500) 1000))] 2000))) = None
   \<and> delivered (snd (WebStorage_has (engine_of default_options) (js ''k'')
         (world_of [(js ''vue-storage-k'', JSON_stringify (make_item (JNum 1) (JNum 1500) 1000))] 2000))) = []"
proof -
  let ?e = "engine_of default_options"
  let ?d = "JSON_stringify (make_item (JNum 1) (JNum 1500) 1000)"
  let ?w = "world_of [(js ''vue-storage-k'', ?d)] 2000"
  have wf: "wf_value (make_item (JNum 1) (JNum 1500) 1000)" by (simp add: make_item_def js_def)
  have h1: "getItem (getFullKey ?e (js ''k'')) ?w = Some ?d"
    by (simp add: getItem_def getFullKey_def engine_of_def default_options_def world_of_def js_def)
  have d: "decoded ?e ?d = make_item (JNum 1) (JNum 1500) 1000"
    by (simp add: decoded_def engine_of_def default_options_def deserialize_plain wf)
  have h2: "has_field (js ''expires'') (decoded ?e ?d)" by (simp add: d)
  have h3: "fst (isExpired (field (js ''expires'') (decoded ?e ?d)) ?w) = Inr True"
    by (simp add: d isExpired_def Date_now_def world_of_def)
  show ?thesis
    using has_expired[OF h1 h2 h3] by (simp add: engine_of_def world_of_def)
qed

text \<open>
  The claim as stated fails: \<open>has\<close> deletes the expired entry through \<open>remove\<close>,
  and \<open>remove\<close> emits its event to the listener registered for it.
\<close>

theorem has_expired_counterexample:
  "fst (WebStorage_has (WebStorage_on (engine_of default_options) EvRemove 7) (js ''k'')
         (world_of [(js ''vue-storage-k'', JSON_stringify (make_item (JNum 1) (JNum 1500) 1000))] 2000)) = False
   \<and> delivered (snd (WebStorage_has (WebStorage_on (engine_of default_options) EvRemove 7) (js ''k'')
         (world_of [(js ''vue-storage-k'', JSON_stringify (make_item (JNum 1) (JNum 1500) 1000))] 2000))) =
       [(7, \<lparr>ev_type = EvRemove, ev_key = Some (js ''k''), ev_value = None, ev_timestamp = 2000\<rparr>)]"
proof -
  let ?e = "WebStorage_on (engine_of default_options) EvRemove 7"
  let ?d = "JSON_stringify (make_item (JNum 1) (JNum 1500) 1000)"
  let ?w = "world_of [(js ''vue-storage-k'', ?d)] 2000"
  have wf: "wf_value (make_item (JNum 1) (JNum 1500) 1000)" by (simp add: make_item_def js_def)
  have g: "getItem (getFullKey ?e (js ''k'')) ?w = Some ?d"
    by (simp add: getItem_def getFullKey_def WebStorage_on_def engine_of_def default_options_def world_of_def js_def)
  have d: "deserialize ?d (encrypt_opt (options ?e)) (encryptKey (options ?e)) = make_item (JNum 1) (JNum 1500) 1000"
    by (simp add: WebStorage_on_def engine_of_def default_options_def deserialize_plain wf)
  have l: "listeners ?e EvRemove = [7]"
    by (simp add: WebStorage_on_def engine_of_def)
  have "WebStorage_has ?e (js ''k'') ?w = (False, snd (WebStorage_remove ?e (js ''k'') (snd (Date_now ?w))))"
    using g d by (simp add: WebStorage_has_def isExpired_def Date_now_def world_of_def Let_def split: prod.splits)
  then show ?thesis
    using l by (simp add: WebStorage_remove_def emit_def Date_now_def next_tick_def removeItem_def world_of_def Let_def)
qed

subsection \<open>C3: the expiry policy\<close>




subsection \<open>C4: the timestamps of the envelope\<close>





subsection \<open>C5: the counts of \<open>getStats\<close>\<close>




subsection \<open>C6: obfuscation and its inverse\<close>




subsection \<open>C7: engines with different prefixes\<close>




subsection \<open>C8: entries that do not decode\<close>





subsection \<open>C9: an entry with a value and no expiry\<close>



subsection \<open>C10: an entry obfuscated by a single call\<close>

text \<open>
  C10. \<open>get\<close> and \<open>has\<close> decode with the flag of the engine. On an engine whose flag is
  off, after a \<open>set\<close> with the per-call flag on has returned true, and for as long as
  the stored text of the key is the one this call wrote, \<open>get\<close> returns the default (or
  \<open>null\<close>) and \<open>has\<close> returns false, and neither changes the world.
\<close>

theorem obfuscated_item_unreadable:
  assumes "\<not> encrypt_opt (options eng)"
    and "set_encrypt opts = Some True"
    and "WebStorage_set eng key val opts w = (True, w1)"
    and "getItem (getFullKey eng key) w2 = getItem (getFullKey eng key) w1"
  shows "WebStorage_get eng key dflt w2 = (or_null dflt, w2) \<and> WebStorage_has eng key w2 = (False, w2)"
proof -
  obtain data where s: "serialize (written_item eng val opts w) (encrypt_of eng opts) (encryptKey (options eng)) = Inr data"
    and g: "getItem (getFullKey eng key) w1 = Some data"
    using set_success[OF assms(3)] by blast
  have "encrypt_of eng opts = True" using assms(2) by (simp add: encrypt_of_def)
  then obtain s' where "btoa s' = Inr data"
    using s by (auto simp: serialize_def encrypt_def Let_def)
  then have nf: "\<not> has_field k (deserialize data False (encryptKey (options eng)))" for k
    by (rule btoa_not_object)
  have g2: "getItem (getFullKey eng key) w2 = Some data" using g assms(4) by simp
  show ?thesis
    using g2 nf assms(1) by (simp add: WebStorage_get_def WebStorage_has_def Let_def)
qed

theorem obfuscated_item_unreadable_witness:
  "WebStorage_get (engine_of default_options) (js ''k'') None
      (snd (WebStorage_set (engine_of default_options) (js ''k'') (JNum 1)
              \<lparr>set_expires = None, set_encrypt = Some True\<rparr> (world_of [] 5)))
     = (JNull, snd (WebStorage_set (engine_of default_options) (js ''k'') (JNum 1)
              \<lparr>set_expires = None, set_encrypt = Some True\<rparr> (world_of [] 5)))
   \<and> fst (WebStorage_set (engine_of default_options) (js ''k'') (JNum 1)
              \<lparr>set_expires = None, set_encrypt = Some True\<rparr> (world_of [] 5))"
proof -
  let ?e = "engine_of default_options"
  let ?o = "\<lparr>set_expires = None, set_encrypt = Some True\<rparr>"
  let ?w = "world_of [] 5"
  let ?w1 = "snd (WebStorage_set ?e (js ''k'') (JNum 1) ?o ?w)"
  have f: "fst (WebStorage_set ?e (js ''k'') (JNum 1) ?o ?w)"
    by (simp add: ex_defs text_defs Let_def)
  then have h3: "WebStorage_set ?e (js ''k'') (JNum 1) ?o ?w = (True, ?w1)"
    by (simp add: prod_eq_iff)
  have h1: "\<not> encrypt_opt (options ?e)" by (simp add: engine_of_def default_options_def)
  have h2: "set_encrypt ?o = Some True" by simp
  have h4: "getItem (getFullKey ?e (js ''k'')) ?w1 = getItem (getFullKey ?e (js ''k'')) ?w1" by simp
  show ?thesis
    using f obfuscated_item_unreadable[OF h1 h2 h3 h4, of None] by (simp add: or_null_def)
qed

end
